theory Spec2Isabelle
  imports Complex_Main "HOL-Library.Word"
begin

section \<open>Icon generator: a shallow embedding of \<open>generate_icons.py\<close>\<close>

text \<open>
  The script turns one source image into a fixed set of icon files. Its own code is
  embedded function by function, under the names of the source (without the leading
  underscore, which an Isabelle name cannot start with). What the script calls but does
  not define (Python's \<open>str\<close> methods and \<open>int(_, 16)\<close>, Pillow's \<open>Image\<close>
  operations, the file system) is modelled below, each with a note of what it stands for.

  A Python string is a \<open>string\<close> whose characters are read as the code points
  U+0000 to U+00FF. The color parser is embedded a second time over strings of arbitrary
  code points, for the statement about every string it rejects; the two embeddings are
  proved to agree on the code points up to U+00FF.
\<close>

subsection \<open>Errors\<close>

text \<open>
  Every exception the script can raise is a value. None of them is caught anywhere in
  the script, so each one ends the run.
\<close>

datatype error =
    InvalidColor string
  | InvalidLiteral string
  | UnknownTargets "string set"
  | EmptyMax
  | ResizeError
  | RoundError
  | LoadError string

text \<open>
  Sequencing: \<open>bind_err m f\<close> runs \<open>f\<close> on the value of \<open>m\<close>, and is the
  error of \<open>m\<close> when \<open>m\<close> raised.
\<close>

fun bind_err :: "error + 'a \<Rightarrow> ('a \<Rightarrow> error + 'b) \<Rightarrow> error + 'b" where
  "bind_err (Inl e) f = Inl e"
| "bind_err (Inr a) f = f a"

subsection \<open>Python strings\<close>

text \<open>
  \<open>str.isspace\<close> on one character: the code points Python's \<open>str.strip()\<close>
  removes (tab to carriage return, the four separators U+001C to U+001F, space,
  U+0085 and U+00A0).
\<close>

definition py_isspace :: "char \<Rightarrow> bool" where
  "py_isspace c =
     (let n = (of_char c :: nat)
      in (9 \<le> n \<and> n \<le> 13) \<or> (28 \<le> n \<and> n \<le> 32) \<or> n = 133 \<or> n = 160)"

text \<open>\<open>s.strip()\<close>: whitespace removed at both ends.\<close>

definition py_strip :: "string \<Rightarrow> string" where
  "py_strip s = rev (dropWhile py_isspace (rev (dropWhile py_isspace s)))"

text \<open>\<open>s.lstrip(ch)\<close> for a one-character argument: every leading \<open>ch\<close> removed.\<close>

definition py_lstrip :: "char \<Rightarrow> string \<Rightarrow> string" where
  "py_lstrip ch s = dropWhile (\<lambda>c. c = ch) s"

text \<open>The slice \<open>s[i:j]\<close> for \<open>0 \<le> i \<le> j\<close>.\<close>

definition py_slice :: "string \<Rightarrow> nat \<Rightarrow> nat \<Rightarrow> string" where
  "py_slice s i j = take (j - i) (drop i s)"

text \<open>
  \<open>str.lower\<close> on one character of the range: the ASCII capitals and the
  Latin-1 capitals U+00C0 to U+00DE (without the multiplication sign U+00D7) move up
  by 32.
\<close>

definition py_lower_char :: "char \<Rightarrow> char" where
  "py_lower_char c =
     (let n = (of_char c :: nat)
      in if (65 \<le> n \<and> n \<le> 90) \<or> (192 \<le> n \<and> n \<le> 222 \<and> n \<noteq> 215)
         then char_of (n + 32) else c)"

definition py_lower :: "string \<Rightarrow> string" where
  "py_lower s = map py_lower_char s"

text \<open>\<open>s.split(",")\<close>: the fields between the commas, at least one field.\<close>

fun split_comma :: "string \<Rightarrow> string list" where
  "split_comma [] = [[]]"
| "split_comma (c # cs) =
     (if c = CHR '','' then [] # split_comma cs
      else (case split_comma cs of
              [] \<Rightarrow> [[c]]
            | f # fs \<Rightarrow> (c # f) # fs))"

subsection \<open>\<open>int(s, 16)\<close>\<close>

text \<open>
  The value of a character as a digit (CPython's digit table): \<open>0\<close> to \<open>9\<close>,
  then the letters of either case from 10 to 35, and 37 for everything else. A
  character is a digit of base 16 when its value is below 16.
\<close>

definition digit_value :: "char \<Rightarrow> nat" where
  "digit_value c =
     (let n = (of_char c :: nat)
      in if 48 \<le> n \<and> n \<le> 57 then n - 48
         else if 97 \<le> n \<and> n \<le> 122 then n - 87
         else if 65 \<le> n \<and> n \<le> 90 then n - 55
         else 37)"

text \<open>
  The whitespace \<open>int\<close> skips around a literal: ASCII whitespace, and the two
  non-ASCII spaces of the range. Unlike \<open>str.strip\<close> it does not skip U+001C to
  U+001F.
\<close>

definition int_isspace :: "char \<Rightarrow> bool" where
  "int_isspace c =
     (let n = (of_char c :: nat)
      in (9 \<le> n \<and> n \<le> 13) \<or> n = 32 \<or> n = 133 \<or> n = 160)"

text \<open>
  The digits after the first one: \<open>scan_digits acc cs\<close> reads digits, each
  optionally preceded by a single underscore, and returns the value with the rest of
  the string; an underscore that no digit follows is None (a syntax error).
\<close>

fun scan_digits :: "nat \<Rightarrow> string \<Rightarrow> (nat \<times> string) option" where
  "scan_digits acc [] = Some (acc, [])"
| "scan_digits acc [c] =
     (if digit_value c < 16 then Some (16 * acc + digit_value c, [])
      else if c = CHR ''_'' then None
      else Some (acc, [c]))"
| "scan_digits acc (c # d # ds) =
     (if digit_value c < 16 then scan_digits (16 * acc + digit_value c) (d # ds)
      else if c = CHR ''_'' then
        (if digit_value d < 16 then scan_digits (16 * acc + digit_value d) ds else None)
      else Some (acc, c # d # ds))"

text \<open>The optional sign of a literal.\<close>

fun literal_sign :: "string \<Rightarrow> int \<times> string" where
  "literal_sign [] = (1, [])"
| "literal_sign (c # cs) =
     (if c = CHR ''+'' then (1, cs)
      else if c = CHR ''-'' then (- 1, cs)
      else (1, c # cs))"

text \<open>The optional prefix \<open>0x\<close> or \<open>0X\<close> of base 16, and one underscore after it.\<close>

fun literal_prefix :: "string \<Rightarrow> string" where
  "literal_prefix (a # b # cs) =
     (if a = CHR ''0'' \<and> (b = CHR ''x'' \<or> b = CHR ''X'')
      then (case cs of
              [] \<Rightarrow> cs
            | u # us \<Rightarrow> if u = CHR ''_'' then us else cs)
      else a # b # cs)"
| "literal_prefix cs = cs"

text \<open>
  \<open>int(s, 16)\<close> on a string: whitespace, an optional sign, an optional prefix, at
  least one digit, whitespace; anything else raises ValueError.
\<close>

definition py_int16 :: "string \<Rightarrow> error + int" where
  "py_int16 s =
     (case literal_sign (dropWhile int_isspace s) of
        (sign, s2) \<Rightarrow>
          (case literal_prefix s2 of
             [] \<Rightarrow> Inl (InvalidLiteral s)
           | d # ds \<Rightarrow>
               if digit_value d < 16 then
                 (case scan_digits (digit_value d) ds of
                    None \<Rightarrow> Inl (InvalidLiteral s)
                  | Some (n, rest) \<Rightarrow>
                      if dropWhile int_isspace rest = [] then Inr (sign * int n)
                      else Inl (InvalidLiteral s))
               else Inl (InvalidLiteral s)))"

subsection \<open>The color parser\<close>

text \<open>
  \<open>_parse_hex_color\<close> (lines 55 to 68). The first channel that \<open>int\<close> rejects
  raises; otherwise the tuple is returned, with alpha 255 for six characters.
\<close>

type_synonym rgba_tuple = "int \<times> int \<times> int \<times> int"

definition parse_hex_color :: "string \<Rightarrow> error + rgba_tuple" where
  "parse_hex_color val =
     (let v = py_lstrip CHR ''#'' (py_strip val) in
      if length v = 6 then
        bind_err (py_int16 (py_slice v 0 2)) (\<lambda>r.
        bind_err (py_int16 (py_slice v 2 4)) (\<lambda>g.
        bind_err (py_int16 (py_slice v 4 6)) (\<lambda>b.
        Inr (r, g, b, 255))))
      else if length v = 8 then
        bind_err (py_int16 (py_slice v 0 2)) (\<lambda>r.
        bind_err (py_int16 (py_slice v 2 4)) (\<lambda>g.
        bind_err (py_int16 (py_slice v 4 6)) (\<lambda>b.
        bind_err (py_int16 (py_slice v 6 8)) (\<lambda>a.
        Inr (r, g, b, a)))))
      else Inl (InvalidColor val))"

text \<open>
  The vocabulary of the statements about the parser: a hexadecimal digit, the value of
  two of them read as one byte, and the value a call returned, if it returned.
\<close>

definition is_hex_digit :: "char \<Rightarrow> bool" where
  "is_hex_digit c = (c \<in> set ''0123456789abcdefABCDEF'')"

definition hex_pair :: "char \<Rightarrow> char \<Rightarrow> int" where
  "hex_pair a b = int (16 * digit_value a + digit_value b)"

definition returned :: "error + 'a \<Rightarrow> 'a option" where
  "returned r = (case r of Inl e \<Rightarrow> None | Inr a \<Rightarrow> Some a)"

subsection \<open>Strings of any code point\<close>

text \<open>
  The color string comes from the command line and can hold any code point, and
  \<open>str.strip\<close> and \<open>int\<close> know more whitespace and more digits than fit in the
  range up to U+00FF. For the statement about what the parser rejects, the parser is
  embedded a second time, over strings as lists of code points. The two tables are those
  of the Unicode database 14.0 (Python 3.11): the code points with \<open>str.isspace\<close>, and
  the code points that stand for the digit zero in a script, each followed by the
  digits one to nine of that script.
\<close>

type_synonym ustring = "nat list"

definition u_isspace :: "nat \<Rightarrow> bool" where
  "u_isspace u =
     ((9 \<le> u \<and> u \<le> 13) \<or> (28 \<le> u \<and> u \<le> 32) \<or> u = 133 \<or> u = 160 \<or> u = 5760 \<or>
      (8192 \<le> u \<and> u \<le> 8202) \<or> u = 8232 \<or> u = 8233 \<or> u = 8239 \<or> u = 8287 \<or>
      u = 12288)"

definition decimal_zeros :: "nat list" where
  "decimal_zeros =
     [48, 1632, 1776, 1984, 2406, 2534, 2662, 2790, 2918, 3046, 3174, 3302, 3430, 3558,
      3664, 3792, 3872, 4160, 4240, 6112, 6160, 6470, 6608, 6784, 6800, 6992, 7088,
      7232, 7248, 42528, 43216, 43264, 43472, 43504, 43600, 44016, 65296, 66720, 68912,
      69734, 69872, 69942, 70096, 70384, 70736, 70864, 71248, 71360, 71472, 71904,
      72016, 72784, 73040, 73120, 92768, 92864, 93008, 120782, 120792, 120802, 120812,
      120822, 123200, 123632, 125264, 130032]"

text \<open>The value of a code point as a decimal digit, if it is one.\<close>

definition u_decimal :: "nat \<Rightarrow> nat option" where
  "u_decimal u = map_option (\<lambda>z. u - z) (find (\<lambda>z. z \<le> u \<and> u < z + 10) decimal_zeros)"

definition u_strip :: "ustring \<Rightarrow> ustring" where
  "u_strip s = rev (dropWhile u_isspace (rev (dropWhile u_isspace s)))"

definition u_lstrip :: "nat \<Rightarrow> ustring \<Rightarrow> ustring" where
  "u_lstrip ch s = dropWhile (\<lambda>c. c = ch) s"

definition u_slice :: "ustring \<Rightarrow> nat \<Rightarrow> nat \<Rightarrow> ustring" where
  "u_slice s i j = take (j - i) (drop i s)"

text \<open>
  Before it reads a literal, \<open>int\<close> turns the string into ASCII. A string that is
  ASCII already is taken as it is. In any other string a code point below 127 is kept,
  whitespace becomes a space, a decimal digit becomes the ASCII digit of its value, and
  at the first code point that is none of these the result ends with a question mark.
\<close>

definition ascii_of :: "nat \<Rightarrow> char option" where
  "ascii_of u =
     (if u < 127 then Some (char_of u)
      else if u_isspace u then Some CHR '' ''
      else map_option (\<lambda>d. char_of (48 + d)) (u_decimal u))"

fun transform :: "ustring \<Rightarrow> string" where
  "transform [] = []"
| "transform (u # us) =
     (case ascii_of u of
        Some c \<Rightarrow> c # transform us
      | None \<Rightarrow> ''?'')"

definition to_ascii :: "ustring \<Rightarrow> string" where
  "to_ascii us = (if list_all (\<lambda>u. u < 128) us then map char_of us else transform us)"

datatype uerror = UInvalidColor ustring | UInvalidLiteral ustring

fun bind_uerr :: "uerror + 'a \<Rightarrow> ('a \<Rightarrow> uerror + 'b) \<Rightarrow> uerror + 'b" where
  "bind_uerr (Inl e) f = Inl e"
| "bind_uerr (Inr a) f = f a"

text \<open>\<open>int(s, 16)\<close> on a string of code points: the literal is read from the ASCII form.\<close>

definition u_int16 :: "ustring \<Rightarrow> uerror + int" where
  "u_int16 us = (case py_int16 (to_ascii us) of Inl e \<Rightarrow> Inl (UInvalidLiteral us) | Inr n \<Rightarrow> Inr n)"

text \<open>\<open>_parse_hex_color\<close> (lines 55 to 68) on a string of code points.\<close>

definition u_parse_hex_color :: "ustring \<Rightarrow> uerror + rgba_tuple" where
  "u_parse_hex_color val =
     (let v = u_lstrip 35 (u_strip val) in
      if length v = 6 then
        bind_uerr (u_int16 (u_slice v 0 2)) (\<lambda>r.
        bind_uerr (u_int16 (u_slice v 2 4)) (\<lambda>g.
        bind_uerr (u_int16 (u_slice v 4 6)) (\<lambda>b.
        Inr (r, g, b, 255))))
      else if length v = 8 then
        bind_uerr (u_int16 (u_slice v 0 2)) (\<lambda>r.
        bind_uerr (u_int16 (u_slice v 2 4)) (\<lambda>g.
        bind_uerr (u_int16 (u_slice v 4 6)) (\<lambda>b.
        bind_uerr (u_int16 (u_slice v 6 8)) (\<lambda>a.
        Inr (r, g, b, a)))))
      else Inl (UInvalidColor val))"








subsection \<open>Python floats\<close>

text \<open>
  A float is a finite value, an infinity or NaN (\<open>--maskable-scale\<close> is parsed by
  \<open>float\<close>, which accepts \<open>inf\<close> and \<open>nan\<close>). Finite values are reals and their
  product is the real product: the rounding of IEEE doubles is not modelled, so that
  for some scales the inner side computed here is one off the script's (where the
  product lies on a half, or next to one). The script uses a float only to choose the
  side of the inner square of the maskable icon, which it clamps afterwards; what is
  proved below about that icon holds for every inner side from 1 to the canvas side.
\<close>

datatype pyfloat = Finite real | PosInf | NegInf | NaN

text \<open>\<open>a < b\<close> on floats: false as soon as one side is NaN.\<close>

fun float_less :: "pyfloat \<Rightarrow> pyfloat \<Rightarrow> bool" where
  "float_less NaN b = False"
| "float_less a NaN = False"
| "float_less (Finite a) (Finite b) = (a < b)"
| "float_less (Finite a) PosInf = True"
| "float_less (Finite a) NegInf = False"
| "float_less NegInf NegInf = False"
| "float_less NegInf b = True"
| "float_less PosInf b = False"

text \<open>
  \<open>min(a, b)\<close> and \<open>max(a, b)\<close>: the first argument, unless the second is
  strictly smaller (strictly greater).
\<close>

definition py_min :: "pyfloat \<Rightarrow> pyfloat \<Rightarrow> pyfloat" where
  "py_min a b = (if float_less b a then b else a)"

definition py_max :: "pyfloat \<Rightarrow> pyfloat \<Rightarrow> pyfloat" where
  "py_max a b = (if float_less a b then b else a)"

text \<open>\<open>n * x\<close> for an integer \<open>n \<ge> 0\<close> and a float \<open>x\<close>.\<close>

fun float_scale :: "nat \<Rightarrow> pyfloat \<Rightarrow> pyfloat" where
  "float_scale n (Finite r) = Finite (real n * r)"
| "float_scale n NaN = NaN"
| "float_scale n PosInf = (if n = 0 then NaN else PosInf)"
| "float_scale n NegInf = (if n = 0 then NaN else NegInf)"

text \<open>Rounding to the nearest integer, a tie to the even one.\<close>

definition round_half_even :: "real \<Rightarrow> int" where
  "round_half_even x =
     (let f = \<lfloor>x\<rfloor>; d = x - of_int f
      in if d < 1 / 2 then f
         else if 1 / 2 < d then f + 1
         else if even f then f else f + 1)"

text \<open>\<open>round(x)\<close> on a float: an integer, or an exception for NaN and the infinities.\<close>

fun py_round :: "pyfloat \<Rightarrow> error + int" where
  "py_round (Finite r) = Inr (round_half_even r)"
| "py_round x = Inl RoundError"

subsection \<open>Images and the Pillow operations\<close>

text \<open>
  An RGBA raster: its size and one pixel of four bytes for each position. Only the
  positions inside the size belong to the image.
\<close>

type_synonym pixel = "8 word \<times> 8 word \<times> 8 word \<times> 8 word"

record image =
  width :: nat
  height :: nat
  pixels :: "nat \<times> nat \<Rightarrow> pixel"

definition alpha :: "pixel \<Rightarrow> 8 word" where
  "alpha p = snd (snd (snd p))"

definition transparent :: pixel where
  "transparent = (0, 0, 0, 0)"

text \<open>
  Pillow turns a color tuple into a pixel by clipping each channel to a byte.
\<close>

definition clip8 :: "int \<Rightarrow> 8 word" where
  "clip8 v = (if v < 0 then 0 else if 255 < v then 255 else of_nat (nat v))"

definition ink :: "rgba_tuple \<Rightarrow> pixel" where
  "ink c = (case c of (r, g, b, a) \<Rightarrow> (clip8 r, clip8 g, clip8 b, clip8 a))"

text \<open>\<open>Image.new("RGBA", (w, h), color)\<close>: every pixel is the color.\<close>

definition pil_new :: "nat \<times> nat \<Rightarrow> rgba_tuple \<Rightarrow> image" where
  "pil_new wh c = \<lparr>width = fst wh, height = snd wh, pixels = (\<lambda>xy. ink c)\<rparr>"

text \<open>
  \<open>img.crop((left, top, right, bottom))\<close>: the window of that box; a position of
  the window that lies outside the source is transparent.
\<close>

definition pil_crop :: "image \<Rightarrow> int \<times> int \<times> int \<times> int \<Rightarrow> image" where
  "pil_crop img box =
     (case box of (left, top', right, bottom) \<Rightarrow>
        \<lparr>width = nat (right - left), height = nat (bottom - top'),
         pixels = (\<lambda>(x, y).
           let sx = int x + left; sy = int y + top'
           in if 0 \<le> sx \<and> sx < int (width img) \<and> 0 \<le> sy \<and> sy < int (height img)
              then pixels img (nat sx, nat sy) else transparent)\<rparr>)"

text \<open>
  One pixel of Pillow's alpha compositing, the source \<open>src\<close> over the backdrop
  \<open>dst\<close>, in its integer arithmetic: \<open>shift_div255\<close> is the macro that divides
  by 255 with two shifts, and the channels carry seven more bits of precision.
\<close>

definition shift_div255 :: "nat \<Rightarrow> nat" where
  "shift_div255 a = (a div 256 + a) div 256"

definition over :: "pixel \<Rightarrow> pixel \<Rightarrow> pixel" where
  "over dst src =
     (case (dst, src) of ((dr, dg, db, da), (sr, sg, sb, sa)) \<Rightarrow>
        if sa = 0 then dst
        else
          (let blend = unat da * (255 - unat sa);
               outa255 = unat sa * 255 + blend;
               coef1 = unat sa * 255 * 255 * 128 div outa255;
               coef2 = 255 * 128 - coef1;
               ch = (\<lambda>s d. of_nat (shift_div255 (unat s * coef1 + unat d * coef2 + 128 * 128) div 128))
           in (ch sr dr, ch sg dg, ch sb db, of_nat (shift_div255 (outa255 + 128)))))"

text \<open>
  \<open>canvas.alpha_composite(im, (x, y))\<close>: inside the window of \<open>im\<close> placed at
  \<open>(x, y)\<close> each pixel of the canvas becomes \<open>im\<close> over it; the rest of the canvas
  is kept. Python changes the canvas in place; the model returns the new canvas.
\<close>

definition pil_alpha_composite :: "image \<Rightarrow> image \<Rightarrow> int \<times> int \<Rightarrow> image" where
  "pil_alpha_composite canvas im dest =
     canvas\<lparr>pixels := (\<lambda>(cx, cy).
       let sx = int cx - fst dest; sy = int cy - snd dest
       in if 0 \<le> sx \<and> sx < int (width im) \<and> 0 \<le> sy \<and> sy < int (height im)
          then over (pixels canvas (cx, cy)) (pixels im (nat sx, nat sy))
          else pixels canvas (cx, cy))\<rparr>"

text \<open>
  \<open>img.resize((w, h), resample=...)\<close>: an image of exactly that size, or a
  ValueError when a side is below 1. The pixels are those of Pillow's resampling
  filter, which is a parameter of the model: \<open>resample img (w, h)\<close> is the raster the
  filter computes.
\<close>

type_synonym resampler = "image \<Rightarrow> nat \<times> nat \<Rightarrow> nat \<times> nat \<Rightarrow> pixel"

definition pil_resize :: "image \<Rightarrow> nat \<times> nat \<Rightarrow> resampler \<Rightarrow> error + image" where
  "pil_resize img wh resample =
     (if fst wh < 1 \<or> snd wh < 1 then Inl ResizeError
      else Inr \<lparr>width = fst wh, height = snd wh, pixels = resample img wh\<rparr>)"

subsection \<open>Squaring, resizing and padding\<close>

text \<open>\<open>_ensure_square\<close> (lines 92 to 106).\<close>

definition ensure_square :: "image \<Rightarrow> bool \<Rightarrow> rgba_tuple \<Rightarrow> image" where
  "ensure_square img pad_to_square background_rgba =
     (let w = width img; h = height img in
      if w = h then img
      else if \<not> pad_to_square then
        (let side = min w h;
             left = (int w - int side) div 2;
             top' = (int h - int side) div 2
         in pil_crop img (left, top', left + int side, top' + int side))
      else
        (let side = max w h;
             canvas = pil_new (side, side) background_rgba;
             x = (int side - int w) div 2;
             y = (int side - int h) div 2
         in pil_alpha_composite canvas img (x, y)))"

text \<open>\<open>_resize\<close> (lines 109 to 112).\<close>

definition resize :: "image \<Rightarrow> nat \<Rightarrow> resampler \<Rightarrow> error + image" where
  "resize img sz resample =
     (if (width img, height img) = (sz, sz) then Inr img
      else pil_resize img (sz, sz) resample)"

text \<open>\<open>_fit_with_padding\<close> (lines 115 to 131).\<close>

definition fit_with_padding ::
  "image \<Rightarrow> nat \<Rightarrow> pyfloat \<Rightarrow> rgba_tuple \<Rightarrow> resampler \<Rightarrow> error + image" where
  "fit_with_padding img sz content_scale background_rgba resample =
     (let content_scale' = py_max (Finite (1 / 10)) (py_min content_scale (Finite 1)) in
      bind_err (py_round (float_scale sz content_scale')) (\<lambda>inner0.
      let inner = nat (max 1 (min inner0 (int sz))) in
      bind_err (resize img inner resample) (\<lambda>inner_img.
      let canvas = pil_new (sz, sz) background_rgba;
          x = (int sz - int inner) div 2;
          y = (int sz - int inner) div 2
      in Inr (pil_alpha_composite canvas inner_img (x, y)))))"

subsection \<open>The file system\<close>

text \<open>
  A path is the list of its components, so that \<open>out / "ue" / "windows"\<close> is
  \<open>out @ [''ue'', ''windows'']\<close> and \<open>path.parent\<close> is \<open>butlast path\<close>. What a run
  does to the file system is the list of its events, in order: the directories it
  asks for (\<open>mkdir(parents=True, exist_ok=True)\<close>) and the files it saves, a PNG
  with its image, an ICO with its base image and the sizes it asks the format to store.
  The operating system's own failures (a full disk, a missing permission) are not
  modelled: a write that is reached happens.
\<close>

type_synonym path = "string list"

datatype fs_event =
    Mkdir path
  | SavePng path image
  | SaveIco path image "(nat \<times> nat) list"

text \<open>
  A step of the run takes the events so far and returns its outcome, an error or a
  value, with the events extended. After an error no further step runs.
\<close>

type_synonym 'a io = "fs_event list \<Rightarrow> (error + 'a) \<times> fs_event list"

definition io_return :: "'a \<Rightarrow> 'a io" where
  "io_return a tr = (Inr a, tr)"

definition io_lift :: "error + 'a \<Rightarrow> 'a io" where
  "io_lift r tr = (r, tr)"

definition io_emit :: "fs_event \<Rightarrow> unit io" where
  "io_emit ev tr = (Inr (), tr @ [ev])"

definition io_bind :: "'a io \<Rightarrow> ('a \<Rightarrow> 'b io) \<Rightarrow> 'b io" where
  "io_bind m f tr =
     (case m tr of
        (Inl e, tr') \<Rightarrow> (Inl e, tr')
      | (Inr a, tr') \<Rightarrow> f a tr')"

text \<open>A \<open>for\<close> loop over a list.\<close>

fun io_for :: "'a list \<Rightarrow> ('a \<Rightarrow> unit io) \<Rightarrow> unit io" where
  "io_for [] body = io_return ()"
| "io_for (x # xs) body = io_bind (body x) (\<lambda>u. io_for xs body)"

text \<open>\<open>max(sizes)\<close> on a list: a ValueError on the empty list.\<close>

fun py_max_list :: "nat list \<Rightarrow> error + nat" where
  "py_max_list [] = Inl EmptyMax"
| "py_max_list (x # xs) = Inr (fold max xs x)"

text \<open>\<open>_write_png\<close> (lines 134 to 136).\<close>

definition write_png :: "image \<Rightarrow> path \<Rightarrow> unit io" where
  "write_png img p =
     io_bind (io_emit (Mkdir (butlast p))) (\<lambda>u.
     io_emit (SavePng p img))"

text \<open>\<open>_write_ico\<close> (lines 139 to 146).\<close>

definition write_ico :: "image \<Rightarrow> path \<Rightarrow> nat list \<Rightarrow> resampler \<Rightarrow> unit io" where
  "write_ico source_square p sizes resample =
     io_bind (io_emit (Mkdir (butlast p))) (\<lambda>u.
     let icon_sizes = map (\<lambda>s. (s, s)) sizes in
     io_bind (io_lift (py_max_list sizes)) (\<lambda>max_size.
     io_bind (io_lift (resize source_square max_size resample)) (\<lambda>base.
     io_emit (SaveIco p base icon_sizes))))"

subsection \<open>The target generators\<close>

text \<open>
  \<open>Options\<close> (lines 44 to 52). The field \<open>resample\<close> holds Pillow's filter
  itself, where the script holds the number that selects it.
\<close>

record options =
  input_path :: path
  out_dir :: path
  targets :: "string set"
  pad_to_square :: bool
  background :: string
  maskable_scale :: pyfloat
  resample :: resampler

text \<open>\<open>generate_web\<close> (lines 149 to 170).\<close>

definition generate_web :: "options \<Rightarrow> image \<Rightarrow> unit io" where
  "generate_web opts src_square =
     (let out = out_dir opts in
      io_bind (write_ico src_square (out @ [''favicon.ico'']) [16, 32, 48] (resample opts)) (\<lambda>u.
      io_bind (io_lift (resize src_square 180 (resample opts))) (\<lambda>i180.
      io_bind (write_png i180 (out @ [''apple-touch-icon.png''])) (\<lambda>u.
      io_bind (io_lift (resize src_square 192 (resample opts))) (\<lambda>i192.
      io_bind (write_png i192 (out @ [''icon-192.png''])) (\<lambda>u.
      io_bind (io_lift (resize src_square 512 (resample opts))) (\<lambda>i512.
      io_bind (write_png i512 (out @ [''icon-512.png''])) (\<lambda>u.
      io_bind (io_lift (parse_hex_color (background opts))) (\<lambda>bg.
      io_bind (io_lift (fit_with_padding src_square 512 (maskable_scale opts) bg (resample opts)))
        (\<lambda>maskable.
      write_png maskable (out @ [''icon-maskable-512.png''])))))))))))"

text \<open>The file names and sizes of the macOS iconset (lines 184 to 195).\<close>

definition mac_entries :: "(string \<times> nat) list" where
  "mac_entries =
     [(''icon_16x16.png'', 16),
      (''icon_16x16@2x.png'', 32),
      (''icon_32x32.png'', 32),
      (''icon_32x32@2x.png'', 64),
      (''icon_128x128.png'', 128),
      (''icon_128x128@2x.png'', 256),
      (''icon_256x256.png'', 256),
      (''icon_256x256@2x.png'', 512),
      (''icon_512x512.png'', 512),
      (''icon_512x512@2x.png'', 1024)]"

text \<open>\<open>generate_ue\<close> (lines 173 to 201).\<close>

definition generate_ue :: "options \<Rightarrow> image \<Rightarrow> unit io" where
  "generate_ue opts src_square =
     (let out = out_dir opts in
      io_bind (write_ico src_square (out @ [''ue'', ''windows'', ''icon.ico''])
                 [16, 24, 32, 48, 64, 128, 256] (resample opts)) (\<lambda>u.
      let iconset_dir = out @ [''ue'', ''mac'', ''AppIcon.iconset''] in
      io_bind (io_emit (Mkdir iconset_dir)) (\<lambda>u.
      io_bind (io_for mac_entries (\<lambda>(filename, sz).
                 io_bind (io_lift (resize src_square sz (resample opts))) (\<lambda>img.
                 write_png img (iconset_dir @ [filename])))) (\<lambda>u.
      io_bind (io_lift (resize src_square 256 (resample opts))) (\<lambda>i256.
      io_bind (write_png i256 (out @ [''ue'', ''linux'', ''icon-256.png''])) (\<lambda>u.
      io_bind (io_lift (resize src_square 512 (resample opts))) (\<lambda>i512.
      write_png i512 (out @ [''ue'', ''linux'', ''icon-512.png'']))))))))"

subsection \<open>The command line\<close>

text \<open>\<open>_parse_targets\<close> (lines 204 to 210).\<close>

definition parse_targets :: "string \<Rightarrow> error + string set" where
  "parse_targets val =
     (let targets = set (map (\<lambda>t. py_lower (py_strip t))
                          (filter (\<lambda>t. py_strip t \<noteq> []) (split_comma val)));
          allowed = {''web'', ''ue''};
          unknown = targets - allowed
      in if unknown \<noteq> {} then Inl (UnknownTargets unknown) else Inr targets)"

text \<open>
  The arguments as \<open>argparse\<close> hands them over, and what the run reads from its
  environment: the outcome of \<open>_load_image\<close> on a path (the decoded RGBA raster, or
  the exception of a missing rasterizer or an unreadable file) and the resampling
  filter that Pillow provides.
\<close>

record args =
  arg_input :: path
  arg_out :: path
  arg_targets :: string
  arg_no_pad :: bool
  arg_background :: string
  arg_maskable_scale :: pyfloat

record env =
  load_image :: "path \<Rightarrow> error + image"
  lanczos :: resampler

text \<open>\<open>main\<close> (lines 236 to 270), after the arguments are parsed.\<close>

definition main :: "env \<Rightarrow> args \<Rightarrow> int io" where
  "main e a =
     (let input_path' = arg_input a; out_dir' = arg_out a in
      io_bind (io_emit (Mkdir out_dir')) (\<lambda>u.
      io_bind (io_lift (parse_targets (arg_targets a))) (\<lambda>targets'.
      let opts = \<lparr>input_path = input_path', out_dir = out_dir', targets = targets',
                  pad_to_square = (\<not> arg_no_pad a), background = arg_background a,
                  maskable_scale = arg_maskable_scale a, resample = lanczos e\<rparr> in
      io_bind (io_lift (parse_hex_color (background opts))) (\<lambda>bg.
      io_bind (io_lift (load_image e (input_path opts))) (\<lambda>src.
      let src_square = ensure_square src (pad_to_square opts) bg in
      io_bind (if ''web'' \<in> targets opts then generate_web opts src_square else io_return ()) (\<lambda>u.
      io_bind (if ''ue'' \<in> targets opts then generate_ue opts src_square else io_return ()) (\<lambda>u.
      io_return 0)))))))"

text \<open>
  The exit status of the process (line 274): the value \<open>main\<close> returns, or 1 when
  an exception ends the run.
\<close>

definition exit_status :: "(error + int) \<times> fs_event list \<Rightarrow> int" where
  "exit_status r = (case fst r of Inl e \<Rightarrow> 1 | Inr n \<Rightarrow> n)"

text \<open>
  What a list of events leaves on disk: the paths of the files saved, each with its
  format and size (a PNG with the size of its image, an ICO with the sizes passed to
  \<open>save\<close>). Pillow itself leaves out of an ICO the sizes above 256 and those above the
  base image; the script passes none (its base image has the largest size of the list,
  which is 48 or 256).
\<close>

datatype file_kind = Png nat nat | Ico "(nat \<times> nat) list"

fun saved :: "fs_event list \<Rightarrow> (path \<times> file_kind) list" where
  "saved [] = []"
| "saved (Mkdir p # evs) = saved evs"
| "saved (SavePng p img # evs) = (p, Png (width img) (height img)) # saved evs"
| "saved (SaveIco p img sizes # evs) = (p, Ico sizes) # saved evs"

text \<open>
  The raster \<open>_resize\<close> returns for a size (the source itself, should the call
  raise), and the files a list of events saved below a directory.
\<close>

definition resized :: "image \<Rightarrow> nat \<Rightarrow> resampler \<Rightarrow> image" where
  "resized img sz k = (case resize img sz k of Inr out \<Rightarrow> out | Inl e \<Rightarrow> img)"

definition files_under :: "path \<Rightarrow> fs_event list \<Rightarrow> path list" where
  "files_under dir evs = filter (\<lambda>p. take (length dir) p = dir) (map fst (saved evs))"

subsection \<open>Sample inputs\<close>

text \<open>
  A raster whose pixels differ from place to place, transparent at its origin, and a
  nearest-neighbour filter: the concrete inputs of the instances below.
\<close>

definition sample_image :: "nat \<Rightarrow> nat \<Rightarrow> image" where
  "sample_image w h =
     \<lparr>width = w, height = h,
      pixels = (\<lambda>(x, y). (of_nat x, of_nat y, 7, of_nat (100 * x + y)))\<rparr>"

definition nearest :: resampler where
  "nearest img wh =
     (\<lambda>(x, y). pixels img (x * width img div fst wh, y * height img div snd wh))"

text \<open>
  Options and arguments for an output directory \<open>dist\<close>, and an environment whose
  source image loads.
\<close>

definition sample_options :: options where
  "sample_options =
     \<lparr>input_path = [''icon.png''], out_dir = [''dist''], targets = {''ue''},
      pad_to_square = True, background = ''#000000'', maskable_scale = Finite (4 / 5),
      resample = nearest\<rparr>"

definition sample_args :: "string \<Rightarrow> string \<Rightarrow> args" where
  "sample_args tg bg =
     \<lparr>arg_input = [''icon.png''], arg_out = [''dist''], arg_targets = tg, arg_no_pad = False,
      arg_background = bg, arg_maskable_scale = Finite (4 / 5)\<rparr>"

definition sample_env :: env where
  "sample_env = \<lparr>load_image = (\<lambda>p. Inr (sample_image 4 4)), lanczos = nearest\<rparr>"

section \<open>Properties\<close>

subsection \<open>Square normalization and resizing\<close>

text \<open>
  C7: a raster whose width equals its height is returned by the square normalizer
  as it is, the same record with the same pixels, under the pad policy and under the
  crop policy alike.
\<close>

theorem ensure_square_square_identity:
  "width img = height img \<Longrightarrow> ensure_square img pad bg = img"
  by (simp add: ensure_square_def)

theorem ensure_square_square_identity_witness:
  "width (sample_image 2 2) = height (sample_image 2 2) \<and>
   ensure_square (sample_image 2 2) True (0, 0, 0, 255) = sample_image 2 2 \<and>
   ensure_square (sample_image 2 2) False (0, 0, 0, 255) = sample_image 2 2"
  using ensure_square_square_identity [of "sample_image 2 2" True "(0, 0, 0, 255)"]
    ensure_square_square_identity [of "sample_image 2 2" False "(0, 0, 0, 255)"]
  by (simp add: sample_image_def)

text \<open>
  C8: for a positive target size, a raster that already has exactly that size is
  returned as it is, with no resampling; any other raster yields a raster of exactly
  that size.
\<close>

theorem resize_exact_or_resampled:
  assumes "0 < sz"
  shows "((width img, height img) = (sz, sz) \<longrightarrow> resize img sz k = Inr img) \<and>
         ((width img, height img) \<noteq> (sz, sz) \<longrightarrow>
            (\<exists>out. resize img sz k = Inr out \<and> (width out, height out) = (sz, sz)))"
  using assms by (simp add: resize_def pil_resize_def)

theorem resize_exact_or_resampled_witness:
  "(0::nat) < 2 \<and> resize (sample_image 2 2) 2 nearest = Inr (sample_image 2 2) \<and>
   (\<exists>out. resize (sample_image 3 2) 2 nearest = Inr out \<and> (width out, height out) = (2, 2))"
  using resize_exact_or_resampled [of 2 "sample_image 2 2" nearest]
    resize_exact_or_resampled [of 2 "sample_image 3 2" nearest]
  by (simp add: sample_image_def)

subsection \<open>The maskable composer\<close>

text \<open>Compositing anything over an opaque pixel gives an opaque pixel.\<close>

lemma shift_div255_opaque: "shift_div255 (255 * 255 + 128) = 255"
  by (simp add: shift_div255_def)

lemma over_opaque:
  assumes "alpha dst = 255"
  shows "alpha (over dst src) = 255"
proof -
  obtain dr dg db da where d: "dst = (dr, dg, db, da)" by (cases dst) auto
  obtain sr sg sb sa where s: "src = (sr, sg, sb, sa)" by (cases src) auto
  from assms d have da: "da = 255" by (simp add: alpha_def)
  have le: "unat sa \<le> 255"
    using unsigned_less [of sa, where ?'a = nat] by simp
  have "unat sa * 255 + 255 * (255 - unat sa) = 255 * 255 + 0"
    using le by (simp add: algebra_simps)
  then have "shift_div255 (unat sa * 255 + 255 * (255 - unat sa) + 128) = 255"
    using shift_div255_opaque by simp
  then show ?thesis
    using d s da by (simp add: over_def alpha_def Let_def)
qed


lemma clamp_scale_value:
  "py_max (Finite (1 / 10)) (py_min cs (Finite 1)) =
     Finite (case cs of Finite x \<Rightarrow> max (1 / 10) (min x 1) | PosInf \<Rightarrow> 1 | NegInf \<Rightarrow> 1 / 10 | NaN \<Rightarrow> 1 / 10)"
  by (cases cs) (auto simp: py_max_def py_min_def)


lemma pil_new_size: "width (pil_new wh c) = fst wh" "height (pil_new wh c) = snd wh"
  by (simp_all add: pil_new_def)

lemma alpha_ink_opaque: "alpha (ink (r, g, b, 255)) = 255"
  by (simp add: alpha_def ink_def clip8_def)

lemma alpha_composite_on_opaque:
  "alpha (pixels (pil_alpha_composite (pil_new wh (r, g, b, 255)) im dest) xy) = 255"
  by (cases xy) (simp add: pil_alpha_composite_def pil_new_def Let_def over_opaque alpha_ink_opaque)

lemma alpha_composite_size:
  "width (pil_alpha_composite canvas im dest) = width canvas"
  "height (pil_alpha_composite canvas im dest) = height canvas"
  by (simp_all add: pil_alpha_composite_def)

lemma fit_with_padding_returns:
  "\<exists>inner_img. fit_with_padding img sz cs bg k =
      Inr (pil_alpha_composite (pil_new (sz, sz) bg) inner_img
            ((int sz - int (width inner_img)) div 2, (int sz - int (width inner_img)) div 2))
      \<and> 1 \<le> width inner_img \<and> (0 < sz \<longrightarrow> width inner_img \<le> sz) \<and> height inner_img = width inner_img"
proof -
  define r where "r = (case cs of Finite x \<Rightarrow> max (1 / 10) (min x 1) | PosInf \<Rightarrow> 1
                        | NegInf \<Rightarrow> 1 / 10 | NaN \<Rightarrow> 1 / 10)"
  have r: "py_max (Finite (1 / 10)) (py_min cs (Finite 1)) = Finite r"
    unfolding r_def by (rule clamp_scale_value)
  define inner where "inner = nat (max 1 (min (round_half_even (real sz * r)) (int sz)))"
  have pos: "1 \<le> inner" by (simp add: inner_def)
  have le: "0 < sz \<Longrightarrow> inner \<le> sz" by (simp add: inner_def)
  have "\<exists>inner_img. resize img inner k = Inr inner_img \<and> width inner_img = inner \<and> height inner_img = inner"
    using pos by (auto simp: resize_def pil_resize_def)
  then obtain inner_img where ii: "resize img inner k = Inr inner_img"
    "width inner_img = inner" "height inner_img = inner" by blast
  have "fit_with_padding img sz cs bg k =
      Inr (pil_alpha_composite (pil_new (sz, sz) bg) inner_img
            ((int sz - int inner) div 2, (int sz - int inner) div 2))"
    using r ii(1) by (simp add: fit_with_padding_def Let_def inner_def)
  with ii pos le show ?thesis by auto
qed

text \<open>
  C4: for every source raster, every canvas size of at least 1, every content
  scale (NaN and the infinities included) and every resampling filter, the padded-fit
  composer returns a canvas of that size, and with a background of alpha 255 every
  pixel on the border of the canvas has alpha 255.
\<close>

theorem fit_with_padding_border_opaque:
  assumes "0 < sz"
  shows "\<exists>out. fit_with_padding img sz cs (r, g, b, 255) k = Inr out \<and>
           width out = sz \<and> height out = sz \<and>
           (\<forall>x < sz. \<forall>y < sz. x = 0 \<or> y = 0 \<or> x = sz - 1 \<or> y = sz - 1 \<longrightarrow>
              alpha (pixels out (x, y)) = 255)"
proof -
  obtain inner_img where
    "fit_with_padding img sz cs (r, g, b, 255) k =
      Inr (pil_alpha_composite (pil_new (sz, sz) (r, g, b, 255)) inner_img
            ((int sz - int (width inner_img)) div 2, (int sz - int (width inner_img)) div 2))"
    using fit_with_padding_returns by blast
  then show ?thesis
    by (simp add: alpha_composite_on_opaque alpha_composite_size pil_new_size)
qed

subsection \<open>Square normalization of a raster that is not square\<close>

lemma int_half_diff: "b \<le> a \<Longrightarrow> (int a - int b) div 2 = int ((a - b) div 2)"
  by (simp add: of_nat_diff zdiv_int)

lemma ensure_square_crop:
  assumes "width img \<noteq> height img"
  defines "side \<equiv> min (width img) (height img)"
  defines "left \<equiv> (width img - side) div 2"
  defines "upper \<equiv> (height img - side) div 2"
  shows "ensure_square img False bg =
           pil_crop img (int left, int upper, int left + int side, int upper + int side)"
proof -
  have "side \<le> width img" "side \<le> height img" by (simp_all add: side_def)
  then have "(int (width img) - int side) div 2 = int left"
    "(int (height img) - int side) div 2 = int upper"
    by (simp_all add: int_half_diff left_def upper_def)
  then show ?thesis
    using assms(1) by (simp add: ensure_square_def Let_def side_def [symmetric])
qed

lemma pil_crop_inside:
  assumes "l + x < width img" "u + y < height img"
  shows "pixels (pil_crop img (int l, int u, r, b)) (x, y) = pixels img (l + x, u + y)"
proof -
  have "nat (int x + int l) = l + x" "nat (int y + int u) = u + y" by simp_all
  then show ?thesis using assms by (simp add: pil_crop_def Let_def add.commute)
qed

lemma ensure_square_pad:
  assumes "width img \<noteq> height img"
  defines "side \<equiv> max (width img) (height img)"
  shows "ensure_square img True bg =
           pil_alpha_composite (pil_new (side, side) bg) img
             (int ((side - width img) div 2), int ((side - height img) div 2))"
proof -
  have "width img \<le> side" "height img \<le> side" by (simp_all add: side_def)
  then have "(int side - int (width img)) div 2 = int ((side - width img) div 2)"
    "(int side - int (height img)) div 2 = int ((side - height img) div 2)"
    by (simp_all add: int_half_diff)
  then show ?thesis
    using assms(1) by (simp add: ensure_square_def Let_def side_def [symmetric])
qed

lemma alpha_composite_pixel:
  "pixels (pil_alpha_composite (pil_new wh c) im (int x0, int y0)) (x, y) =
     (if x0 \<le> x \<and> x < x0 + width im \<and> y0 \<le> y \<and> y < y0 + height im
      then over (ink c) (pixels im (x - x0, y - y0)) else ink c)"
proof -
  have "nat (int x - int x0) = x - x0" "nat (int y - int y0) = y - y0" by simp_all
  moreover have "(0 \<le> int x - int x0 \<and> int x - int x0 < int (width im)) = (x0 \<le> x \<and> x < x0 + width im)"
    "(0 \<le> int y - int y0 \<and> int y - int y0 < int (height im)) = (y0 \<le> y \<and> y < y0 + height im)"
    by auto
  ultimately show ?thesis
    by (simp add: pil_alpha_composite_def pil_new_def Let_def)
qed

text \<open>
  C6: for a raster of width \<open>w\<close> and height \<open>h\<close> with \<open>w \<noteq> h\<close>. Under the
  crop policy the result has side \<open>min w h\<close> and is the window of the source that
  starts at \<open>((w - side) div 2, (h - side) div 2)\<close>; what is cut off after the window
  is what is cut off before it, or one pixel more. Under the pad policy the result has
  side \<open>max w h\<close>; inside the window of the source placed at
  \<open>((side - w) div 2, (side - h) div 2)\<close> each pixel is the source pixel composited
  over the background color, and every other pixel is the background color.
\<close>

theorem ensure_square_nonsquare:
  assumes "width img \<noteq> height img"
  shows "(let w = width img; h = height img; side = min w h;
              left = (w - side) div 2; upper = (h - side) div 2;
              out = ensure_square img False bg
          in width out = side \<and> height out = side \<and>
             (\<forall>x < side. \<forall>y < side. pixels out (x, y) = pixels img (left + x, upper + y)) \<and>
             left \<le> w - (left + side) \<and> w - (left + side) \<le> left + 1 \<and>
             upper \<le> h - (upper + side) \<and> h - (upper + side) \<le> upper + 1)
       \<and> (let w = width img; h = height img; side = max w h;
              x0 = (side - w) div 2; y0 = (side - h) div 2;
              out = ensure_square img True bg
          in width out = side \<and> height out = side \<and>
             (\<forall>x < side. \<forall>y < side. pixels out (x, y) =
                (if x0 \<le> x \<and> x < x0 + w \<and> y0 \<le> y \<and> y < y0 + h
                 then over (ink bg) (pixels img (x - x0, y - y0)) else ink bg)))"
proof -
  define side where "side = min (width img) (height img)"
  define left where "left = (width img - side) div 2"
  define upper where "upper = (height img - side) div 2"
  have crop: "ensure_square img False bg =
      pil_crop img (int left, int upper, int left + int side, int upper + int side)"
    unfolding left_def upper_def side_def using assms by (rule ensure_square_crop)
  have sw: "side \<le> width img" and sh: "side \<le> height img" by (simp_all add: side_def)
  have margins: "left \<le> width img - (left + side)" "width img - (left + side) \<le> left + 1"
    "upper \<le> height img - (upper + side)" "height img - (upper + side) \<le> upper + 1"
    using sw sh unfolding left_def upper_def by linarith+
  have inside: "pixels (ensure_square img False bg) (x, y) = pixels img (left + x, upper + y)"
    if "x < side" "y < side" for x y
  proof -
    have "left + x < width img" "upper + y < height img"
      using that sw sh unfolding left_def upper_def by linarith+
    then show ?thesis unfolding crop by (rule pil_crop_inside)
  qed
  have size_crop: "width (ensure_square img False bg) = side" "height (ensure_square img False bg) = side"
    unfolding crop by (simp_all add: pil_crop_def)
  have first: "(let w = width img; h = height img; side = min w h;
              left = (w - side) div 2; upper = (h - side) div 2;
              out = ensure_square img False bg
          in width out = side \<and> height out = side \<and>
             (\<forall>x < side. \<forall>y < side. pixels out (x, y) = pixels img (left + x, upper + y)) \<and>
             left \<le> w - (left + side) \<and> w - (left + side) \<le> left + 1 \<and>
             upper \<le> h - (upper + side) \<and> h - (upper + side) \<le> upper + 1)"
    unfolding Let_def side_def [symmetric] left_def [symmetric] upper_def [symmetric]
    using size_crop inside margins by simp
  define big where "big = max (width img) (height img)"
  have pad: "ensure_square img True bg =
      pil_alpha_composite (pil_new (big, big) bg) img
        (int ((big - width img) div 2), int ((big - height img) div 2))"
    unfolding big_def using assms by (rule ensure_square_pad)
  have second: "(let w = width img; h = height img; side = max w h;
              x0 = (side - w) div 2; y0 = (side - h) div 2;
              out = ensure_square img True bg
          in width out = side \<and> height out = side \<and>
             (\<forall>x < side. \<forall>y < side. pixels out (x, y) =
                (if x0 \<le> x \<and> x < x0 + w \<and> y0 \<le> y \<and> y < y0 + h
                 then over (ink bg) (pixels img (x - x0, y - y0)) else ink bg)))"
    unfolding Let_def big_def [symmetric] pad
    by (simp add: alpha_composite_pixel alpha_composite_size pil_new_size)
  from first second show ?thesis by (rule conjI)
qed


theorem fit_with_padding_border_opaque_witness:
  "(0::nat) < 4 \<and>
   (\<exists>out. fit_with_padding (sample_image 3 3) 4 (Finite (4 / 5)) (0, 0, 0, 255) nearest = Inr out \<and>
      width out = 4 \<and> height out = 4 \<and>
      alpha (pixels out (0, 2)) = 255 \<and> alpha (pixels out (3, 3)) = 255)"
proof -
  have pos: "(0::nat) < 4" by simp
  from fit_with_padding_border_opaque [OF pos, of "sample_image 3 3" "Finite (4 / 5)" 0 0 0 nearest]
  obtain out where out:
    "fit_with_padding (sample_image 3 3) 4 (Finite (4 / 5)) (0, 0, 0, 255) nearest = Inr out"
    "width out = 4" "height out = 4"
    "\<forall>x < 4. \<forall>y < 4. x = 0 \<or> y = 0 \<or> x = 4 - 1 \<or> y = 4 - 1 \<longrightarrow> alpha (pixels out (x, y)) = 255"
    by blast
  have a: "alpha (pixels out (0, 2)) = 255"
    using out(4) [rule_format, of 0 2] by simp
  have b: "alpha (pixels out (3, 3)) = 255"
    using out(4) [rule_format, of 3 3] by simp
  from pos out(1-3) a b show ?thesis by blast
qed

theorem ensure_square_nonsquare_witness:
  "width (sample_image 5 2) \<noteq> height (sample_image 5 2) \<and>
   width (ensure_square (sample_image 5 2) False (9, 8, 7, 255)) = 2 \<and>
   height (ensure_square (sample_image 5 2) False (9, 8, 7, 255)) = 2 \<and>
   pixels (ensure_square (sample_image 5 2) False (9, 8, 7, 255)) (0, 1) =
     pixels (sample_image 5 2) (1, 1) \<and>
   width (ensure_square (sample_image 5 2) True (9, 8, 7, 255)) = 5 \<and>
   height (ensure_square (sample_image 5 2) True (9, 8, 7, 255)) = 5 \<and>
   pixels (ensure_square (sample_image 5 2) True (9, 8, 7, 255)) (0, 0) = ink (9, 8, 7, 255) \<and>
   pixels (ensure_square (sample_image 5 2) True (9, 8, 7, 255)) (2, 1) =
     over (ink (9, 8, 7, 255)) (pixels (sample_image 5 2) (2, 0))"
proof -
  have ne: "width (sample_image 5 2) \<noteq> height (sample_image 5 2)"
    by (simp add: sample_image_def)
  have w: "width (sample_image 5 2) = 5" and h: "height (sample_image 5 2) = 2"
    by (simp_all add: sample_image_def)
  note t = ensure_square_nonsquare [OF ne, of "(9, 8, 7, 255)", unfolded Let_def w h]
  from t have crop: "\<forall>x < 2. \<forall>y < 2.
      pixels (ensure_square (sample_image 5 2) False (9, 8, 7, 255)) (x, y) =
      pixels (sample_image 5 2) (1 + x, 0 + y)"
    by simp
  from t have pad: "\<forall>x < 5. \<forall>y < 5.
      pixels (ensure_square (sample_image 5 2) True (9, 8, 7, 255)) (x, y) =
      (if 0 \<le> x \<and> x < 0 + 5 \<and> 1 \<le> y \<and> y < 1 + 2
       then over (ink (9, 8, 7, 255)) (pixels (sample_image 5 2) (x - 0, y - 1))
       else ink (9, 8, 7, 255))"
    by simp
  from crop have c1: "pixels (ensure_square (sample_image 5 2) False (9, 8, 7, 255)) (0, 1) =
      pixels (sample_image 5 2) (1, 1)"
    by force
  from pad have p1: "pixels (ensure_square (sample_image 5 2) True (9, 8, 7, 255)) (0, 0) =
      ink (9, 8, 7, 255)"
    by force
  from pad have p2: "pixels (ensure_square (sample_image 5 2) True (9, 8, 7, 255)) (2, 1) =
      over (ink (9, 8, 7, 255)) (pixels (sample_image 5 2) (2, 0))"
    by force
  from t have sizes: "width (ensure_square (sample_image 5 2) False (9, 8, 7, 255)) = 2"
    "height (ensure_square (sample_image 5 2) False (9, 8, 7, 255)) = 2"
    "width (ensure_square (sample_image 5 2) True (9, 8, 7, 255)) = 5"
    "height (ensure_square (sample_image 5 2) True (9, 8, 7, 255)) = 5"
    by simp_all
  from ne sizes c1 p1 p2 show ?thesis by simp
qed


subsection \<open>Parsing colors\<close>

lemma digit_value_hex:
  assumes "digit_value c < 16"
  shows "is_hex_digit c"
proof -
  define n where "n = (of_char c :: nat)"
  from assms have "(48 \<le> n \<and> n \<le> 57) \<or> (97 \<le> n \<and> n \<le> 102) \<or> (65 \<le> n \<and> n \<le> 70)"
    unfolding digit_value_def n_def [symmetric] Let_def by (auto split: if_splits)
  then have "n \<in> {48, 49, 50, 51, 52, 53, 54, 55, 56, 57, 97, 98, 99, 100, 101, 102,
                 65, 66, 67, 68, 69, 70}"
    by (simp only: insert_iff empty_iff) presburger
  then have "n \<in> of_char ` set ''0123456789abcdefABCDEF''"
    by simp
  then obtain d where "d \<in> set ''0123456789abcdefABCDEF''" "n = of_char d"
    by blast
  then show ?thesis
    unfolding n_def is_hex_digit_def by simp
qed

lemma hex_digit_plain:
  assumes "is_hex_digit c"
  shows "\<not> py_isspace c" "\<not> int_isspace c" "c \<noteq> CHR ''+''" "c \<noteq> CHR ''-''"
    "c \<noteq> CHR ''x''" "c \<noteq> CHR ''X''" "c \<noteq> CHR ''_''" "c \<noteq> CHR ''#''" "digit_value c < 16"
  using assms by (auto simp: is_hex_digit_def py_isspace_def int_isspace_def digit_value_def)

lemma is_hex_digit_iff: "is_hex_digit c = (digit_value c < 16)"
  using digit_value_hex hex_digit_plain(9) by blast

lemma py_int16_hex_pair:
  assumes "is_hex_digit a" "is_hex_digit b"
  shows "py_int16 [a, b] = Inr (hex_pair a b)"
  using hex_digit_plain [OF assms(1)] hex_digit_plain [OF assms(2)]
  by (simp add: py_int16_def hex_pair_def)


lemma dropWhile_id: "xs = [] \<or> \<not> P (hd xs) \<Longrightarrow> dropWhile P xs = xs"
  by (cases xs) auto

lemma py_strip_padded:
  assumes "\<forall>c \<in> set ws1. py_isspace c" "\<forall>c \<in> set ws2. py_isspace c"
    and "s = [] \<or> (\<not> py_isspace (hd s) \<and> \<not> py_isspace (last s))"
  shows "py_strip (ws1 @ s @ ws2) = s"
proof (cases "s = []")
  case True
  have "\<forall>c \<in> set (ws1 @ ws2). py_isspace c"
    using assms(1,2) by auto
  then have d: "dropWhile py_isspace (ws1 @ ws2) = []"
    by (simp only: dropWhile_eq_Nil_conv)
  show ?thesis
    unfolding True py_strip_def append_Nil d by simp
next
  case False
  with assms(3) have h: "\<not> py_isspace (hd s)" and l: "\<not> py_isspace (last s)" by simp_all
  have "dropWhile py_isspace (ws1 @ s @ ws2) = dropWhile py_isspace (s @ ws2)"
    using assms(1) by (simp add: dropWhile_append2)
  also have "\<dots> = s @ ws2"
    using False h by (intro dropWhile_id) simp
  finally have front: "dropWhile py_isspace (ws1 @ s @ ws2) = s @ ws2" .
  have "dropWhile py_isspace (rev ws2 @ rev s) = dropWhile py_isspace (rev s)"
    by (rule dropWhile_append2) (use assms(2) in auto)
  then have "dropWhile py_isspace (rev (s @ ws2)) = dropWhile py_isspace (rev s)"
    by (simp only: rev_append)
  also have "\<dots> = rev s"
    using False l by (intro dropWhile_id) (simp add: hd_rev)
  finally show ?thesis
    by (simp add: py_strip_def front)
qed

lemma py_strip_plain:
  "s = [] \<or> (\<not> py_isspace (hd s) \<and> \<not> py_isspace (last s)) \<Longrightarrow> py_strip s = s"
  using py_strip_padded [of "[]" "[]" s] by simp

lemma py_lstrip_replicate: "py_lstrip c (replicate n c @ s) = py_lstrip c s"
  by (induction n) (simp_all add: py_lstrip_def)

lemma remainder_padded:
  assumes "\<forall>c \<in> set ws1. py_isspace c" "\<forall>c \<in> set ws2. py_isspace c"
    and "v = [] \<or> (\<not> py_isspace (hd v) \<and> \<not> py_isspace (last v))"
  shows "py_lstrip CHR ''#'' (py_strip (ws1 @ replicate n CHR ''#'' @ v @ ws2)) =
         py_lstrip CHR ''#'' (py_strip v)"
proof -
  have hash: "\<not> py_isspace CHR ''#''" by (simp add: py_isspace_def)
  have "replicate n CHR ''#'' @ v = [] \<or>
        (\<not> py_isspace (hd (replicate n CHR ''#'' @ v)) \<and>
         \<not> py_isspace (last (replicate n CHR ''#'' @ v)))"
    using assms(3) hash by (cases n; cases "v = []") (auto simp: hd_append)
  then have "py_strip (ws1 @ (replicate n CHR ''#'' @ v) @ ws2) = replicate n CHR ''#'' @ v"
    using assms(1,2) by (intro py_strip_padded)
  then show ?thesis
    using assms(3) by (simp add: py_lstrip_replicate py_strip_plain)
qed

lemma returned_same_remainder:
  assumes "py_lstrip CHR ''#'' (py_strip a) = py_lstrip CHR ''#'' (py_strip b)"
  shows "returned (parse_hex_color a) = returned (parse_hex_color b)"
  using assms by (simp add: parse_hex_color_def Let_def returned_def)

lemma py_int16_not_invalid_color: "py_int16 s \<noteq> Inl (InvalidColor x)"
  by (auto simp: py_int16_def split: prod.splits list.splits option.splits if_splits)

lemma bind_err_Inl_iff:
  "bind_err m f = Inl e \<longleftrightarrow> m = Inl e \<or> (\<exists>a. m = Inr a \<and> f a = Inl e)"
  by (cases m) auto

lemma remainder_valid:
  assumes "\<forall>c \<in> set v. is_hex_digit c" and "p = [] \<or> p = ''#''"
  shows "py_lstrip CHR ''#'' (py_strip (p @ v)) = v"
proof (cases "v = []")
  case True
  with assms(2) show ?thesis by (auto simp: py_strip_def py_lstrip_def py_isspace_def)
next
  case False
  then have "is_hex_digit (hd v)" "is_hex_digit (last v)" using assms(1) by simp_all
  then have plain: "\<not> py_isspace (hd v)" "\<not> py_isspace (last v)" "hd v \<noteq> CHR ''#''"
    by (simp_all add: hex_digit_plain)
  from assms(2) obtain n where p: "p = replicate n CHR ''#''"
  proof
    assume "p = []" then have "p = replicate 0 CHR ''#''" by simp
    then show ?thesis by (rule that)
  next
    assume "p = ''#''" then have "p = replicate 1 CHR ''#''" by simp
    then show ?thesis by (rule that)
  qed
  have "py_lstrip CHR ''#'' (py_strip ([] @ replicate n CHR ''#'' @ v @ [])) =
        py_lstrip CHR ''#'' (py_strip v)"
    using plain by (intro remainder_padded) simp_all
  moreover have "py_strip v = v" using plain by (intro py_strip_plain) simp
  moreover have "py_lstrip CHR ''#'' v = v"
    unfolding py_lstrip_def using plain(3) by (intro dropWhile_id) simp
  ultimately show ?thesis by (simp add: p)
qed

lemma length6: "length v = 6 \<Longrightarrow> \<exists>a b c d e f. v = [a, b, c, d, e, f]"
  by (auto simp: eval_nat_numeral length_Suc_conv)

lemma length8: "length v = 8 \<Longrightarrow> \<exists>a b c d e f g h. v = [a, b, c, d, e, f, g, h]"
  by (auto simp: eval_nat_numeral length_Suc_conv)

text \<open>
  C5: a string of six hexadecimal digits, with or without a leading \<open>#\<close>,
  parses to its three bytes and alpha 255; a string of eight hexadecimal digits parses to
  its four bytes, the alpha being the value of the last two digits.
\<close>

theorem parse_hex_color_valid:
  assumes "\<forall>c \<in> set v. is_hex_digit c" and "p = [] \<or> p = ''#''"
  shows "(length v = 6 \<longrightarrow>
            parse_hex_color (p @ v) =
              Inr (hex_pair (v ! 0) (v ! 1), hex_pair (v ! 2) (v ! 3), hex_pair (v ! 4) (v ! 5), 255))
       \<and> (length v = 8 \<longrightarrow>
            parse_hex_color (p @ v) =
              Inr (hex_pair (v ! 0) (v ! 1), hex_pair (v ! 2) (v ! 3), hex_pair (v ! 4) (v ! 5),
                   hex_pair (v ! 6) (v ! 7)))"
proof (intro conjI impI)
  note rem = remainder_valid [OF assms]
  {
    assume "length v = 6"
    then obtain a b c d e f where v: "v = [a, b, c, d, e, f]" using length6 by blast
    with assms(1) have "is_hex_digit a" "is_hex_digit b" "is_hex_digit c" "is_hex_digit d"
      "is_hex_digit e" "is_hex_digit f" by simp_all
    then have "py_int16 [a, b] = Inr (hex_pair a b)" "py_int16 [c, d] = Inr (hex_pair c d)"
      "py_int16 [e, f] = Inr (hex_pair e f)" by (simp_all add: py_int16_hex_pair)
    then show "parse_hex_color (p @ v) =
        Inr (hex_pair (v ! 0) (v ! 1), hex_pair (v ! 2) (v ! 3), hex_pair (v ! 4) (v ! 5), 255)"
      unfolding parse_hex_color_def rem Let_def by (simp add: v py_slice_def)
  }
  {
    assume "length v = 8"
    then obtain a b c d e f g h where v: "v = [a, b, c, d, e, f, g, h]" using length8 by blast
    with assms(1) have "is_hex_digit a" "is_hex_digit b" "is_hex_digit c" "is_hex_digit d"
      "is_hex_digit e" "is_hex_digit f" "is_hex_digit g" "is_hex_digit h" by simp_all
    then have "py_int16 [a, b] = Inr (hex_pair a b)" "py_int16 [c, d] = Inr (hex_pair c d)"
      "py_int16 [e, f] = Inr (hex_pair e f)" "py_int16 [g, h] = Inr (hex_pair g h)"
      by (simp_all add: py_int16_hex_pair)
    then show "parse_hex_color (p @ v) =
        Inr (hex_pair (v ! 0) (v ! 1), hex_pair (v ! 2) (v ! 3), hex_pair (v ! 4) (v ! 5),
             hex_pair (v ! 6) (v ! 7))"
      unfolding parse_hex_color_def rem Let_def by (simp add: v py_slice_def)
  }
qed

theorem parse_hex_color_valid_witness:
  "parse_hex_color ''#1a2B3c'' = Inr (26, 43, 60, 255) \<and>
   parse_hex_color ''00ff0080'' = Inr (0, 255, 0, 128)"
  using parse_hex_color_valid [of "''1a2B3c''" "''#''"] parse_hex_color_valid [of "''00ff0080''" "[]"]
  by (simp add: is_hex_digit_def hex_pair_def digit_value_def)

lemma parse_hex_color_of_remainder:
  assumes "py_lstrip CHR ''#'' (py_strip val) = v" and "\<forall>c \<in> set v. is_hex_digit c"
  shows "(length v = 6 \<longrightarrow>
            parse_hex_color val =
              Inr (hex_pair (v ! 0) (v ! 1), hex_pair (v ! 2) (v ! 3), hex_pair (v ! 4) (v ! 5), 255))
       \<and> (length v = 8 \<longrightarrow>
            parse_hex_color val =
              Inr (hex_pair (v ! 0) (v ! 1), hex_pair (v ! 2) (v ! 3), hex_pair (v ! 4) (v ! 5),
                   hex_pair (v ! 6) (v ! 7)))"
proof (intro conjI impI)
  assume "length v = 6"
  then obtain a b c d e f where v: "v = [a, b, c, d, e, f]" using length6 by blast
  with assms(2) have "py_int16 [a, b] = Inr (hex_pair a b)" "py_int16 [c, d] = Inr (hex_pair c d)"
    "py_int16 [e, f] = Inr (hex_pair e f)" by (simp_all add: py_int16_hex_pair)
  then show "parse_hex_color val =
      Inr (hex_pair (v ! 0) (v ! 1), hex_pair (v ! 2) (v ! 3), hex_pair (v ! 4) (v ! 5), 255)"
    unfolding parse_hex_color_def assms(1) Let_def by (simp add: v py_slice_def)
next
  assume "length v = 8"
  then obtain a b c d e f g h where v: "v = [a, b, c, d, e, f, g, h]" using length8 by blast
  with assms(2) have "py_int16 [a, b] = Inr (hex_pair a b)" "py_int16 [c, d] = Inr (hex_pair c d)"
    "py_int16 [e, f] = Inr (hex_pair e f)" "py_int16 [g, h] = Inr (hex_pair g h)"
    by (simp_all add: py_int16_hex_pair)
  then show "parse_hex_color val =
      Inr (hex_pair (v ! 0) (v ! 1), hex_pair (v ! 2) (v ! 3), hex_pair (v ! 4) (v ! 5),
           hex_pair (v ! 6) (v ! 7))"
    unfolding parse_hex_color_def assms(1) Let_def by (simp add: v py_slice_def)
qed

text \<open>
  C10: the parser strips the whitespace around its input and then every leading
  \<open>#\<close>, however many. An input padded with whitespace and prefixed with any number of
  \<open>#\<close> returns what the bare string returns; when the bare string is six or eight
  hexadecimal digits, that is the tuple of its bytes (alpha 255 for six digits). The
  length check applies to what is left after this stripping: the invalid-color error is
  raised exactly when that remainder has neither 6 nor 8 characters.
\<close>

theorem parse_hex_color_strips_first:
  assumes "\<forall>c \<in> set ws1. py_isspace c" and "\<forall>c \<in> set ws2. py_isspace c"
    and "v = [] \<or> (\<not> py_isspace (hd v) \<and> \<not> py_isspace (last v))"
  shows "returned (parse_hex_color (ws1 @ replicate n CHR ''#'' @ v @ ws2)) =
           returned (parse_hex_color v)
       \<and> ((\<exists>x. parse_hex_color val = Inl (InvalidColor x)) \<longleftrightarrow>
            length (py_lstrip CHR ''#'' (py_strip val)) \<notin> {6, 8})
       \<and> ((\<forall>c \<in> set v. is_hex_digit c) \<and> length v = 6 \<longrightarrow>
            parse_hex_color (ws1 @ replicate n CHR ''#'' @ v @ ws2) =
              Inr (hex_pair (v ! 0) (v ! 1), hex_pair (v ! 2) (v ! 3), hex_pair (v ! 4) (v ! 5), 255))
       \<and> ((\<forall>c \<in> set v. is_hex_digit c) \<and> length v = 8 \<longrightarrow>
            parse_hex_color (ws1 @ replicate n CHR ''#'' @ v @ ws2) =
              Inr (hex_pair (v ! 0) (v ! 1), hex_pair (v ! 2) (v ! 3), hex_pair (v ! 4) (v ! 5),
                   hex_pair (v ! 6) (v ! 7)))"
proof (intro conjI impI)
  show "returned (parse_hex_color (ws1 @ replicate n CHR ''#'' @ v @ ws2)) =
           returned (parse_hex_color v)"
    using assms by (intro returned_same_remainder remainder_padded)
next
  show "(\<exists>x. parse_hex_color val = Inl (InvalidColor x)) \<longleftrightarrow>
            length (py_lstrip CHR ''#'' (py_strip val)) \<notin> {6, 8}"
    by (auto simp: parse_hex_color_def Let_def bind_err_Inl_iff py_int16_not_invalid_color)
next
  assume h: "(\<forall>c \<in> set v. is_hex_digit c) \<and> length v = 6"
  have "py_lstrip CHR ''#'' (py_strip (ws1 @ replicate n CHR ''#'' @ v @ ws2)) =
      py_lstrip CHR ''#'' (py_strip v)"
    using assms by (rule remainder_padded)
  also have "\<dots> = v"
    using remainder_valid [of v "[]"] h by simp
  finally show "parse_hex_color (ws1 @ replicate n CHR ''#'' @ v @ ws2) =
      Inr (hex_pair (v ! 0) (v ! 1), hex_pair (v ! 2) (v ! 3), hex_pair (v ! 4) (v ! 5), 255)"
    using parse_hex_color_of_remainder h by blast
next
  assume h: "(\<forall>c \<in> set v. is_hex_digit c) \<and> length v = 8"
  have "py_lstrip CHR ''#'' (py_strip (ws1 @ replicate n CHR ''#'' @ v @ ws2)) =
      py_lstrip CHR ''#'' (py_strip v)"
    using assms by (rule remainder_padded)
  also have "\<dots> = v"
    using remainder_valid [of v "[]"] h by simp
  finally show "parse_hex_color (ws1 @ replicate n CHR ''#'' @ v @ ws2) =
      Inr (hex_pair (v ! 0) (v ! 1), hex_pair (v ! 2) (v ! 3), hex_pair (v ! 4) (v ! 5),
           hex_pair (v ! 6) (v ! 7))"
    using parse_hex_color_of_remainder h by blast
qed

theorem parse_hex_color_strips_first_witness:
  "parse_hex_color ''##00ff00'' = Inr (0, 255, 0, 255) \<and>
   parse_hex_color ''  #00ff00  '' = Inr (0, 255, 0, 255) \<and>
   parse_hex_color ''#00ff00'' = Inr (0, 255, 0, 255) \<and>
   parse_hex_color '' ##00ff0080  '' = Inr (0, 255, 0, 128) \<and>
   (\<exists>x. parse_hex_color '' ##00ff0 '' = Inl (InvalidColor x))"
  using parse_hex_color_strips_first [of "[]" "[]" "''00ff00''" "Suc (Suc 0)" "'' ##00ff0 ''"]
    parse_hex_color_strips_first [of "''  ''" "''  ''" "''00ff00''" "Suc 0" "'' ##00ff0 ''"]
    parse_hex_color_strips_first [of "[]" "[]" "''00ff00''" "Suc 0" "'' ##00ff0 ''"]
    parse_hex_color_strips_first [of "'' ''" "''  ''" "''00ff0080''" "Suc (Suc 0)" "'' ##00ff0 ''"]
  by (simp add: py_isspace_def py_strip_def py_lstrip_def is_hex_digit_def hex_pair_def
      digit_value_def)

text \<open>A minus sign gives a channel below zero.\<close>

lemma parse_hex_color_negative_channel:
  "parse_hex_color ''-f0000'' = Inr (- 15, 0, 0, 255)"
  by (simp add: parse_hex_color_def py_strip_def py_lstrip_def py_isspace_def py_slice_def
      py_int16_def int_isspace_def digit_value_def)


subsection \<open>What the parser rejects, for strings of any code point\<close>

text \<open>
  A literal of two characters, as \<open>int\<close> reads it: it has a value exactly when it is
  two digits, or a sign or whitespace and then a digit, or a digit and then whitespace.
\<close>

lemma digit_value_hex':
  assumes "digit_value c < 16"
  shows "\<not> int_isspace c" "c \<noteq> CHR ''+''" "c \<noteq> CHR ''-''"
    "c \<noteq> CHR ''x''" "c \<noteq> CHR ''X''" "c \<noteq> CHR ''_''"
  using hex_digit_plain [OF digit_value_hex [OF assms]] by simp_all

lemma special_chars:
  "\<not> int_isspace CHR ''_''" "\<not> int_isspace CHR ''+''" "\<not> int_isspace CHR ''-''"
  "\<not> int_isspace CHR ''x''" "\<not> int_isspace CHR ''X''" "\<not> int_isspace CHR ''0''"
  "\<not> int_isspace CHR ''?''"
  "\<not> digit_value CHR ''_'' < 16" "\<not> digit_value CHR ''+'' < 16" "\<not> digit_value CHR ''-'' < 16"
  "\<not> digit_value CHR ''x'' < 16" "\<not> digit_value CHR ''X'' < 16" "digit_value CHR ''0'' < 16"
  "\<not> digit_value CHR ''?'' < 16" "int_isspace CHR '' ''" "\<not> digit_value CHR '' '' < 16"
  by (simp_all add: int_isspace_def digit_value_def)







lemma u_decimal_low:
  "u < 1632 \<Longrightarrow> u_decimal u = (if 48 \<le> u \<and> u \<le> 57 then Some (u - 48) else None)"
  by (simp add: u_decimal_def decimal_zeros_def)


















subsection \<open>The two embeddings of the parser agree\<close>

text \<open>
  On a string of code points up to U+00FF the parser over code points returns a tuple
  exactly when the parser over 8-bit characters returns it, and the same tuple: the
  first embedding is the second one, restricted to that range.
\<close>

lemma of_char_lt: "(of_char c :: nat) < 256"
proof -
  have "(of_char c :: nat) mod 256 < 256" by (rule mod_less_divisor) simp
  then show ?thesis by simp
qed

lemma u_isspace_of_char: "u_isspace (of_char c) = py_isspace c"
proof -
  define n where "n = (of_char c :: nat)"
  have "n < 256" unfolding n_def by (rule of_char_lt)
  then have "u_isspace n = ((9 \<le> n \<and> n \<le> 13) \<or> (28 \<le> n \<and> n \<le> 32) \<or> n = 133 \<or> n = 160)"
    by (auto simp: u_isspace_def)
  then show ?thesis
    by (simp add: py_isspace_def Let_def n_def)
qed

lemma u_strip_of_char: "u_strip (map of_char s) = map of_char (py_strip s)"
proof -
  have comp: "u_isspace \<circ> of_char = py_isspace"
    by (rule ext) (simp add: u_isspace_of_char)
  show ?thesis
    by (simp add: u_strip_def py_strip_def dropWhile_map rev_map comp)
qed

lemma u_lstrip_of_char: "u_lstrip 35 (map of_char s) = map of_char (py_lstrip CHR ''#'' s)"
proof -
  have "((of_char c :: nat) = 35) = (c = CHR ''#'')" for c
    using of_char_eq_iff [of c "CHR ''#''", where ?'a = nat] by simp
  then have comp: "(\<lambda>c. c = (35::nat)) \<circ> of_char = (\<lambda>c. c = CHR ''#'')"
    by (intro ext) simp
  show ?thesis
    by (simp add: u_lstrip_def py_lstrip_def dropWhile_map comp)
qed

lemma u_slice_of_char: "u_slice (map of_char v) i j = map of_char (py_slice v i j)"
  by (simp add: u_slice_def py_slice_def take_map drop_map)

lemma py_int16_pair_value:
  "py_int16 [x, y] =
     (if digit_value x < 16 \<and> digit_value y < 16 then Inr (int (16 * digit_value x + digit_value y))
      else if (x = CHR ''+'' \<or> int_isspace x) \<and> digit_value y < 16 then Inr (int (digit_value y))
      else if x = CHR ''-'' \<and> digit_value y < 16 then Inr (- int (digit_value y))
      else if digit_value x < 16 \<and> int_isspace y then Inr (int (digit_value x))
      else Inl (InvalidLiteral [x, y]))"
  by (auto simp: py_int16_def digit_value_hex' special_chars split: option.splits prod.splits)

lemma py_int16_single_value:
  "py_int16 [x] = (if digit_value x < 16 then Inr (int (digit_value x)) else Inl (InvalidLiteral [x]))"
  by (auto simp: py_int16_def digit_value_hex' special_chars split: option.splits prod.splits)


lemma high_char:
  assumes "127 \<le> (of_char c :: nat)"
  shows "\<not> digit_value c < 16" "c \<noteq> CHR ''+''" "c \<noteq> CHR ''-''"
  using assms by (auto simp: digit_value_def)

lemma ascii_of_of_char:
  "ascii_of (of_char c) =
     (if (of_char c :: nat) < 127 then Some c
      else if int_isspace c then Some CHR '' '' else None)"
proof -
  have lt: "(of_char c :: nat) < 256" by (rule of_char_lt)
  show ?thesis
  proof (cases "(of_char c :: nat) < 127")
    case True
    then show ?thesis by (simp add: ascii_of_def)
  next
    case False
    from lt have "(of_char c :: nat) < 1632" by linarith
    from u_decimal_low [OF this] False have "u_decimal (of_char c) = None"
      by simp
    moreover have "u_isspace (of_char c) = int_isspace c"
      using False by (auto simp: u_isspace_of_char py_isspace_def int_isspace_def Let_def)
    ultimately show ?thesis using False by (simp add: ascii_of_def)
  qed
qed

lemma u_int16_Inr: "(u_int16 us = Inr n) = (py_int16 (to_ascii us) = Inr n)"
  by (cases "py_int16 (to_ascii us)") (simp_all add: u_int16_def)

lemma u_int16_of_char:
  "(u_int16 [of_char x, of_char y] = Inr n) = (py_int16 [x, y] = Inr n)"
proof (cases "(of_char x :: nat) < 128 \<and> (of_char y :: nat) < 128")
  case True
  then have "to_ascii [of_char x, of_char y] = [x, y]" by (simp add: to_ascii_def)
  then show ?thesis by (simp add: u_int16_Inr)
next
  case False
  then have t: "to_ascii [of_char x, of_char y] = transform [of_char x, of_char y]"
    by (auto simp: to_ascii_def)
  consider (lowx) "(of_char x :: nat) < 127" "127 \<le> (of_char y :: nat)"
    | (highx) "127 \<le> (of_char x :: nat)"
    using False by linarith
  then show ?thesis
  proof cases
    case lowx
    then show ?thesis
      using high_char [OF lowx(2)]
      by (simp add: u_int16_Inr t ascii_of_of_char py_int16_pair_value special_chars)
  next
    case highx
    show ?thesis
    proof (cases "(of_char y :: nat) < 127")
      case True
      then show ?thesis
        using high_char [OF highx] highx
        by (simp add: u_int16_Inr t ascii_of_of_char py_int16_pair_value py_int16_single_value
            special_chars)
    next
      case False
      then have "127 \<le> (of_char y :: nat)" by simp
      then show ?thesis
        using high_char [OF highx] high_char [of y] highx
        by (simp add: u_int16_Inr t ascii_of_of_char py_int16_pair_value py_int16_single_value
            special_chars)
    qed
  qed
qed


lemma field_agrees:
  "(\<exists>e e'. u_int16 [of_char x, of_char y] = Inl e \<and> py_int16 [x, y] = Inl e') \<or>
   (\<exists>n. u_int16 [of_char x, of_char y] = Inr n \<and> py_int16 [x, y] = Inr n)"
proof (cases "py_int16 [x, y]")
  case (Inl e')
  then have "u_int16 [of_char x, of_char y] \<noteq> Inr n" for n
    by (simp add: u_int16_of_char)
  then show ?thesis using Inl by (cases "u_int16 [of_char x, of_char y]") auto
next
  case (Inr n)
  then show ?thesis by (simp add: u_int16_of_char)
qed

lemma u_parse_hex_color_of_char:
  "(u_parse_hex_color (map of_char s) = Inr t) = (parse_hex_color s = Inr t)"
proof -
  define v where "v = py_lstrip CHR ''#'' (py_strip s)"
  have rem: "u_lstrip 35 (u_strip (map of_char s)) = map of_char v"
    by (simp add: v_def u_strip_of_char u_lstrip_of_char)
  consider "length v = 6" | "length v = 8" | "length v \<noteq> 6 \<and> length v \<noteq> 8" by blast
  then show ?thesis
  proof cases
    case 1
    then obtain a b c d e f where v: "v = [a, b, c, d, e, f]" using length6 by blast
    show ?thesis
      unfolding u_parse_hex_color_def parse_hex_color_def rem v_def [symmetric] Let_def
      using field_agrees [of a b] field_agrees [of c d] field_agrees [of e f]
      by (auto simp: v u_slice_def py_slice_def)
  next
    case 2
    then obtain a b c d e f g h where v: "v = [a, b, c, d, e, f, g, h]" using length8 by blast
    show ?thesis
      unfolding u_parse_hex_color_def parse_hex_color_def rem v_def [symmetric] Let_def
      using field_agrees [of a b] field_agrees [of c d] field_agrees [of e f] field_agrees [of g h]
      by (auto simp: v u_slice_def py_slice_def)
  next
    case 3
    then show ?thesis
      unfolding u_parse_hex_color_def parse_hex_color_def rem v_def [symmetric] Let_def
      by simp
  qed
qed

subsection \<open>The engine-packaging generator\<close>

lemma resize_resized: "0 < sz \<Longrightarrow> resize img sz k = Inr (resized img sz k)"
  by (simp add: resized_def resize_def pil_resize_def)

lemma resized_size: "0 < sz \<Longrightarrow> width (resized img sz k) = sz \<and> height (resized img sz k) = sz"
  by (simp add: resized_def resize_def pil_resize_def)

lemmas io_defs = io_bind_def io_emit_def io_lift_def io_return_def write_png_def write_ico_def

text \<open>
  The events of \<open>generate_ue\<close>, one by one: it never raises, and it appends the
  Windows icon, the iconset directory and its ten images, and the two Linux images.
\<close>

lemma generate_ue_events:
  "generate_ue opts src tr =
     (Inr (), tr @
       [Mkdir (out_dir opts @ [''ue'', ''windows'']),
        SaveIco (out_dir opts @ [''ue'', ''windows'', ''icon.ico'']) (resized src 256 (resample opts))
          [(16, 16), (24, 24), (32, 32), (48, 48), (64, 64), (128, 128), (256, 256)],
        Mkdir (out_dir opts @ [''ue'', ''mac'', ''AppIcon.iconset''])] @
       concat (map (\<lambda>(name, sz).
          [Mkdir (out_dir opts @ [''ue'', ''mac'', ''AppIcon.iconset'']),
           SavePng (out_dir opts @ [''ue'', ''mac'', ''AppIcon.iconset'', name])
             (resized src sz (resample opts))]) mac_entries) @
       [Mkdir (out_dir opts @ [''ue'', ''linux'']),
        SavePng (out_dir opts @ [''ue'', ''linux'', ''icon-256.png'']) (resized src 256 (resample opts)),
        Mkdir (out_dir opts @ [''ue'', ''linux'']),
        SavePng (out_dir opts @ [''ue'', ''linux'', ''icon-512.png'']) (resized src 512 (resample opts))])"
  by (simp add: generate_ue_def Let_def io_defs mac_entries_def resize_resized butlast_append)

text \<open>
  C1 (as amended): the engine-packaging generator always succeeds and saves exactly thirteen
  files, at fixed paths below \<open>ue\<close> in the output directory: the icon container
  \<open>ue/windows/icon.ico\<close> with the sizes 16, 24, 32, 48, 64, 128 and 256; the ten images
  of \<open>ue/mac/AppIcon.iconset\<close> under their fixed names, of sizes 16, 32, 32, 64, 128,
  256, 256, 512, 512 and 1024; and \<open>ue/linux/icon-256.png\<close> and
  \<open>ue/linux/icon-512.png\<close>, of sizes 256 and 512.
\<close>

theorem generate_ue_files:
  "fst (generate_ue opts src []) = Inr () \<and>
   saved (snd (generate_ue opts src [])) =
     [(out_dir opts @ [''ue'', ''windows'', ''icon.ico''],
         Ico [(16, 16), (24, 24), (32, 32), (48, 48), (64, 64), (128, 128), (256, 256)]),
      (out_dir opts @ [''ue'', ''mac'', ''AppIcon.iconset'', ''icon_16x16.png''], Png 16 16),
      (out_dir opts @ [''ue'', ''mac'', ''AppIcon.iconset'', ''icon_16x16@2x.png''], Png 32 32),
      (out_dir opts @ [''ue'', ''mac'', ''AppIcon.iconset'', ''icon_32x32.png''], Png 32 32),
      (out_dir opts @ [''ue'', ''mac'', ''AppIcon.iconset'', ''icon_32x32@2x.png''], Png 64 64),
      (out_dir opts @ [''ue'', ''mac'', ''AppIcon.iconset'', ''icon_128x128.png''], Png 128 128),
      (out_dir opts @ [''ue'', ''mac'', ''AppIcon.iconset'', ''icon_128x128@2x.png''], Png 256 256),
      (out_dir opts @ [''ue'', ''mac'', ''AppIcon.iconset'', ''icon_256x256.png''], Png 256 256),
      (out_dir opts @ [''ue'', ''mac'', ''AppIcon.iconset'', ''icon_256x256@2x.png''], Png 512 512),
      (out_dir opts @ [''ue'', ''mac'', ''AppIcon.iconset'', ''icon_512x512.png''], Png 512 512),
      (out_dir opts @ [''ue'', ''mac'', ''AppIcon.iconset'', ''icon_512x512@2x.png''], Png 1024 1024),
      (out_dir opts @ [''ue'', ''linux'', ''icon-256.png''], Png 256 256),
      (out_dir opts @ [''ue'', ''linux'', ''icon-512.png''], Png 512 512)]"
  unfolding generate_ue_events by (simp add: mac_entries_def resized_size)


theorem generate_ue_files_witness:
  "fst (generate_ue sample_options (sample_image 4 4) []) = Inr () \<and>
   map fst (saved (snd (generate_ue sample_options (sample_image 4 4) []))) =
     [[''dist'', ''ue'', ''windows'', ''icon.ico''],
      [''dist'', ''ue'', ''mac'', ''AppIcon.iconset'', ''icon_16x16.png''],
      [''dist'', ''ue'', ''mac'', ''AppIcon.iconset'', ''icon_16x16@2x.png''],
      [''dist'', ''ue'', ''mac'', ''AppIcon.iconset'', ''icon_32x32.png''],
      [''dist'', ''ue'', ''mac'', ''AppIcon.iconset'', ''icon_32x32@2x.png''],
      [''dist'', ''ue'', ''mac'', ''AppIcon.iconset'', ''icon_128x128.png''],
      [''dist'', ''ue'', ''mac'', ''AppIcon.iconset'', ''icon_128x128@2x.png''],
      [''dist'', ''ue'', ''mac'', ''AppIcon.iconset'', ''icon_256x256.png''],
      [''dist'', ''ue'', ''mac'', ''AppIcon.iconset'', ''icon_256x256@2x.png''],
      [''dist'', ''ue'', ''mac'', ''AppIcon.iconset'', ''icon_512x512.png''],
      [''dist'', ''ue'', ''mac'', ''AppIcon.iconset'', ''icon_512x512@2x.png''],
      [''dist'', ''ue'', ''linux'', ''icon-256.png''],
      [''dist'', ''ue'', ''linux'', ''icon-512.png'']]"
  using generate_ue_files [of sample_options "sample_image 4 4"]
  by (simp add: sample_options_def)

text \<open>
  C1 as the specification states it does not hold: for the output directory \<open>dist\<close>
  nothing is saved below \<open>dist/windows\<close>, \<open>dist/mac/AppIcon.iconset\<close> or
  \<open>dist/linux\<close>. Every file lies one level deeper, below \<open>dist/ue\<close>.
\<close>

theorem generate_ue_not_at_root:
  "files_under [''dist'', ''windows''] (snd (generate_ue sample_options (sample_image 4 4) [])) = [] \<and>
   files_under [''dist'', ''mac'', ''AppIcon.iconset'']
     (snd (generate_ue sample_options (sample_image 4 4) [])) = [] \<and>
   files_under [''dist'', ''linux''] (snd (generate_ue sample_options (sample_image 4 4) [])) = []"
  unfolding generate_ue_events
  by (simp add: files_under_def mac_entries_def sample_options_def)

subsection \<open>Target names and the run\<close>

lemma parse_targets_unknown:
  assumes "t \<in> set (split_comma val)" and "py_strip t \<noteq> []"
    and "py_lower (py_strip t) \<notin> {''web'', ''ue''}"
  shows "\<exists>u. parse_targets val = Inl (UnknownTargets u) \<and> py_lower (py_strip t) \<in> u"
proof -
  define ts where "ts = set (map (\<lambda>t. py_lower (py_strip t))
                          (filter (\<lambda>t. py_strip t \<noteq> []) (split_comma val)))"
  have "py_lower (py_strip t) \<in> ts"
    using assms(1,2) by (auto simp: ts_def)
  with assms(3) have "py_lower (py_strip t) \<in> ts - {''web'', ''ue''}" by simp
  then have "ts - {''web'', ''ue''} \<noteq> {}" by blast
  then have "parse_targets val = Inl (UnknownTargets (ts - {''web'', ''ue''}))"
    unfolding parse_targets_def Let_def ts_def [symmetric] by simp
  with \<open>py_lower (py_strip t) \<in> ts - {''web'', ''ue''}\<close> show ?thesis by blast
qed

lemma parse_targets_empty:
  assumes "\<forall>t \<in> set (split_comma val). py_strip t = []"
  shows "parse_targets val = Inr {}"
proof -
  have "filter (\<lambda>t. py_strip t \<noteq> []) (split_comma val) = []"
    using assms by (simp add: filter_empty_conv)
  then show ?thesis by (simp add: parse_targets_def)
qed

text \<open>
  C3: when some entry of \<open>--targets\<close>, stripped and lowered, is a name other
  than \<open>web\<close> and \<open>ue\<close>, the run ends with the unknown-targets error and a
  non-zero exit status, and all it has done by then is to ask for the output directory:
  no file has been saved.
\<close>

theorem main_unknown_target:
  assumes "t \<in> set (split_comma (arg_targets a))" and "py_strip t \<noteq> []"
    and "py_lower (py_strip t) \<notin> {''web'', ''ue''}"
  shows "(\<exists>u. fst (main e a []) = Inl (UnknownTargets u)) \<and>
         exit_status (main e a []) \<noteq> 0 \<and>
         snd (main e a []) = [Mkdir (arg_out a)] \<and>
         saved (snd (main e a [])) = []"
proof -
  obtain u where "parse_targets (arg_targets a) = Inl (UnknownTargets u)"
    using parse_targets_unknown [OF assms] by blast
  then have "main e a [] = (Inl (UnknownTargets u), [Mkdir (arg_out a)])"
    by (simp add: main_def Let_def io_defs)
  then show ?thesis by (simp add: exit_status_def)
qed

theorem main_unknown_target_witness:
  "(\<exists>u. fst (main sample_env (sample_args ''bogus'' ''#000000'') []) = Inl (UnknownTargets u)) \<and>
   exit_status (main sample_env (sample_args ''bogus'' ''#000000'') []) \<noteq> 0 \<and>
   snd (main sample_env (sample_args ''bogus'' ''#000000'') []) = [Mkdir [''dist'']] \<and>
   saved (snd (main sample_env (sample_args ''bogus'' ''#000000'') [])) = []"
  using main_unknown_target [of "''bogus''" "sample_args ''bogus'' ''#000000''" sample_env]
  by (simp add: sample_args_def py_strip_def py_isspace_def py_lower_def py_lower_char_def)

text \<open>
  C9: when every entry of \<open>--targets\<close> is empty after stripping, target parsing
  returns the empty set and raises nothing; and the run, given a background color that
  parses and a source image that loads, ends with exit status 0, having asked for the
  output directory and saved no file.
\<close>

theorem main_no_targets:
  assumes "\<forall>t \<in> set (split_comma (arg_targets a)). py_strip t = []"
    and "parse_hex_color (arg_background a) = Inr bg"
    and "load_image e (arg_input a) = Inr src"
  shows "parse_targets (arg_targets a) = Inr {} \<and>
         main e a [] = (Inr 0, [Mkdir (arg_out a)]) \<and>
         exit_status (main e a []) = 0 \<and>
         saved (snd (main e a [])) = []"
proof -
  have pt: "parse_targets (arg_targets a) = Inr {}"
    using assms(1) by (rule parse_targets_empty)
  then have "main e a [] = (Inr 0, [Mkdir (arg_out a)])"
    using assms(2,3) by (simp add: main_def Let_def io_defs)
  with pt show ?thesis by (simp add: exit_status_def)
qed

theorem main_no_targets_witness:
  "parse_targets '','' = Inr {} \<and>
   main sample_env (sample_args '','' ''#000000'') [] = (Inr 0, [Mkdir [''dist'']]) \<and>
   exit_status (main sample_env (sample_args '','' ''#000000'') []) = 0 \<and>
   main sample_env (sample_args '' '' ''#000000'') [] = (Inr 0, [Mkdir [''dist'']])"
proof -
  have bg: "parse_hex_color ''#000000'' = Inr (0, 0, 0, 255)"
    by (simp add: parse_hex_color_def py_strip_def py_lstrip_def py_isspace_def py_slice_def
        py_int16_def int_isspace_def digit_value_def)
  have a: "\<forall>t \<in> set (split_comma (arg_targets (sample_args '','' ''#000000''))). py_strip t = []"
    by (simp add: sample_args_def py_strip_def)
  have b: "\<forall>t \<in> set (split_comma (arg_targets (sample_args '' '' ''#000000''))). py_strip t = []"
    by (simp add: sample_args_def py_strip_def py_isspace_def)
  have c: "parse_hex_color (arg_background (sample_args tg ''#000000'')) = Inr (0, 0, 0, 255)" for tg
    using bg by (simp add: sample_args_def)
  have d: "load_image sample_env (arg_input (sample_args tg ''#000000'')) = Inr (sample_image 4 4)" for tg
    by (simp add: sample_env_def)
  from main_no_targets [OF a c d] main_no_targets [OF b c d]
  show ?thesis by (simp add: sample_args_def exit_status_def)
qed

text \<open>
  The engine-packaging files of a whole run: with the single target \<open>ue\<close>, a
  background that parses and an image that loads, the run exits with status 0 and the
  files it saved are the thirteen above, below the \<open>--out\<close> directory.
\<close>

lemma main_ue_only:
  assumes "parse_targets (arg_targets a) = Inr {''ue''}"
    and "parse_hex_color (arg_background a) = Inr bg"
    and "load_image e (arg_input a) = Inr src"
  shows "exit_status (main e a []) = 0 \<and>
         map fst (saved (snd (main e a []))) =
           map (\<lambda>p. arg_out a @ p)
             ([[''ue'', ''windows'', ''icon.ico'']] @
              map (\<lambda>(name, sz). [''ue'', ''mac'', ''AppIcon.iconset'', name]) mac_entries @
              [[''ue'', ''linux'', ''icon-256.png''], [''ue'', ''linux'', ''icon-512.png'']])"
proof -
  define opts where "opts = \<lparr>input_path = arg_input a, out_dir = arg_out a, targets = {''ue''},
      pad_to_square = (\<not> arg_no_pad a), background = arg_background a,
      maskable_scale = arg_maskable_scale a, resample = lanczos e\<rparr>"
  define sq where "sq = ensure_square src (\<not> arg_no_pad a) bg"
  have out: "out_dir opts = arg_out a" by (simp add: opts_def)
  have m: "main e a [] = (Inr 0, snd (generate_ue opts sq [Mkdir (arg_out a)]))"
    using assms by (simp add: main_def Let_def io_defs opts_def sq_def generate_ue_events)
  show ?thesis
    unfolding m generate_ue_events out
    by (simp add: exit_status_def mac_entries_def)
qed


end
